theory Spec2Isabelle
  imports Main "HOL-Library.Word"
begin

unbundle bit_operations_syntax

section \<open>plugin/keyring\_udf/keyring\_udf.cc\<close>

subsection \<open>The validation request and its argument count\<close>

text \<open>
  \<^verbatim>\<open>enum what_to_validate\<close>: the four flags of the bit mask \<^verbatim>\<open>to_validate\<close>.
  The mask is a C \<^verbatim>\<open>int\<close>, here a 32-bit word read in two's complement by \<open>sint\<close>.
\<close>

definition VALIDATE_KEY :: "32 word" where
  "VALIDATE_KEY = 1"

definition VALIDATE_KEY_ID :: "32 word" where
  "VALIDATE_KEY_ID = 2"

definition VALIDATE_KEY_TYPE :: "32 word" where
  "VALIDATE_KEY_TYPE = 4"

definition VALIDATE_KEY_LENGTH :: "32 word" where
  "VALIDATE_KEY_LENGTH = 8"

text \<open>
  The loop of \<^verbatim>\<open>get_args_count_from_validation_request\<close>:
  \<^verbatim>\<open>for (; to_validate; to_validate >>= 1) if (to_validate & 1) ++args_count;\<close>
  The shift of a signed \<^verbatim>\<open>int\<close> is arithmetic, so a negative mask never reaches 0 and
  the loop does not return: the result is an option, \<open>None\<close> for no return.
  \<^verbatim>\<open>args_count\<close> is a \<^verbatim>\<open>uint\<close>, a 32-bit word whose \<open>+\<close> wraps.
\<close>

partial_function (option) count_bits_loop :: "32 word \<Rightarrow> 32 word \<Rightarrow> 32 word option" where
  "count_bits_loop to_validate args_count =
     (if to_validate = 0 then Some args_count
      else count_bits_loop (signed_drop_bit 1 to_validate)
             (if to_validate AND 1 \<noteq> 0 then args_count + 1 else args_count))"

declare count_bits_loop.simps [code]

definition get_args_count_from_validation_request :: "32 word \<Rightarrow> 32 word option" where
  "get_args_count_from_validation_request to_validate = count_bits_loop to_validate 0"

text \<open>The six user-defined functions of the plugin and the mask each \<^verbatim>\<open>*_init\<close> passes.\<close>

datatype udf_function =
  Keyring_key_store | Keyring_key_fetch | Keyring_key_type_fetch
  | Keyring_key_length_fetch | Keyring_key_remove | Keyring_key_generate

fun requested_validation :: "udf_function \<Rightarrow> 32 word" where
  "requested_validation Keyring_key_store = (VALIDATE_KEY_ID OR VALIDATE_KEY_TYPE OR VALIDATE_KEY)"
| "requested_validation Keyring_key_fetch = VALIDATE_KEY_ID"
| "requested_validation Keyring_key_type_fetch = VALIDATE_KEY_ID"
| "requested_validation Keyring_key_length_fetch = VALIDATE_KEY_ID"
| "requested_validation Keyring_key_remove = VALIDATE_KEY_ID"
| "requested_validation Keyring_key_generate =
     (VALIDATE_KEY_ID OR VALIDATE_KEY_TYPE OR VALIDATE_KEY_LENGTH)"

text \<open>The number of set bits of a mask, as a set cardinality: the specification side.\<close>

definition popcount :: "32 word \<Rightarrow> nat" where
  "popcount w = card {n. bit w n}"

subsection \<open>Arguments, services and the result of an init call\<close>

text \<open>
  Modelled from the spec: the type tags of \<^verbatim>\<open>args->arg_type[i]\<close> (the server's enum
  \<^verbatim>\<open>Item_result\<close>) are declared in a header that is not among the sources, and the spec
  is silent on them. \<^verbatim>\<open>validate\<close> only compares a tag with \<^verbatim>\<open>STRING_RESULT\<close> and
  \<^verbatim>\<open>INT_RESULT\<close>; the other constructors stand for every other tag.
\<close>

datatype Item_result = STRING_RESULT | REAL_RESULT | INT_RESULT | ROW_RESULT | DECIMAL_RESULT

text \<open>
  One entry of \<^verbatim>\<open>UDF_ARGS\<close>: \<^verbatim>\<open>arg_type[i]\<close> and the pointer \<^verbatim>\<open>args[i]\<close>.
  \<open>None\<close> is \<^verbatim>\<open>nullptr\<close>; \<open>Some v\<close> is a pointer that is not null, \<open>v\<close> being the
  \<^verbatim>\<open>long long\<close> that \<^verbatim>\<open>*reinterpret_cast<long long *>(args->args[i])\<close> reads there.
  \<^verbatim>\<open>arg_count\<close> is the length of the list.
\<close>

record udf_arg =
  arg_type :: Item_result
  arg_ptr :: "64 word option"

type_synonym UDF_ARGS = "udf_arg list"

text \<open>The fields of \<^verbatim>\<open>UDF_INIT\<close> that the init functions write.\<close>

record UDF_INIT =
  maybe_null :: bool
  max_length :: nat
  ptr :: "8 word list option"

text \<open>
  What the init functions read from outside: the plugin's flag
  \<^verbatim>\<open>is_keyring_udf_initialized\<close>, the two calls of the security context service (each
  returns true on failure; the second stores the privilege on success), whether
  \<^verbatim>\<open>new (std::nothrow)\<close> returns \<^verbatim>\<open>nullptr\<close>, and the value returned by
  \<^verbatim>\<open>udf_metadata_service->result_set\<close>.
\<close>

record environment =
  is_keyring_udf_initialized :: bool
  thd_get_security_context_fails :: bool
  privilege_execute :: "bool option"
  allocation_fails :: bool
  result_set_fails :: bool

text \<open>
  The calls that the functions of this file make to a service, recorded in order: the security
  context service (\<^verbatim>\<open>thd_get_security_context\<close>, and \<^verbatim>\<open>security_context_get_option\<close>
  with the name of the option), the metadata service (\<^verbatim>\<open>argument_set\<close> with the index of
  the argument, \<^verbatim>\<open>result_set\<close>), and the key store (\<^verbatim>\<open>my_key_store\<close>,
  \<^verbatim>\<open>my_key_fetch\<close>, \<^verbatim>\<open>my_key_remove\<close>, \<^verbatim>\<open>my_key_generate\<close>). In the source the
  key store is called by the functions proper only (\<^verbatim>\<open>keyring_key_store\<close>, \<^verbatim>\<open>fetch\<close>,
  \<^verbatim>\<open>keyring_key_remove\<close>, \<^verbatim>\<open>keyring_key_generate\<close>), never by an init function.
\<close>

datatype service_call =
  Thd_get_security_context | Security_context_get_option string
  | Argument_set nat | Result_set
  | My_key_store | My_key_fetch | My_key_remove | My_key_generate

fun key_store_call :: "service_call \<Rightarrow> bool" where
  "key_store_call My_key_store = True"
| "key_store_call My_key_fetch = True"
| "key_store_call My_key_remove = True"
| "key_store_call My_key_generate = True"
| "key_store_call _ = False"

text \<open>
  Two ways of not returning a value: a read of \<^verbatim>\<open>args->args[i]\<close> past \<^verbatim>\<open>arg_count\<close>
  (undefined behaviour in C), and the bit counting loop on a negative mask.
\<close>

datatype fault = Read_outside_args | No_return

record init_result =
  returned :: bool
  message :: "string option"
  initid :: UDF_INIT
  calls :: "service_call list"

definition MAX_KEYRING_UDF_KEY_LENGTH :: nat where
  "MAX_KEYRING_UDF_KEY_LENGTH = 16384"

definition MAX_KEYRING_UDF_KEY_TEXT_LENGTH :: nat where
  "MAX_KEYRING_UDF_KEY_TEXT_LENGTH = MAX_KEYRING_UDF_KEY_LENGTH"

definition KEYRING_UDF_KEY_TYPE_LENGTH :: nat where
  "KEYRING_UDF_KEY_TYPE_LENGTH = 128"

subsection \<open>validate\<close>

text \<open>
  The outcome of \<^verbatim>\<open>thd_get_security_context(thd, &sec_ctx) ||
  security_context_get_option(sec_ctx, "privilege_execute",
  &has_current_user_execute_privilege)\<close>, as the conditions below read it: \<open>None\<close> when
  either call fails, else the privilege stored.
\<close>

definition has_current_user_execute_privilege :: "environment \<Rightarrow> bool option" where
  "has_current_user_execute_privilege env =
     (if thd_get_security_context_fails env then None else privilege_execute env)"

definition read_arg :: "UDF_ARGS \<Rightarrow> nat \<Rightarrow> fault + udf_arg" where
  "read_arg args i = (if i < length args then Inr (args ! i) else Inl Read_outside_args)"

text \<open>
  The four checks of arguments, in the order of the source; each one either returns true with
  its message or falls through to the rest. The message buffer is \<open>None\<close> while nothing has
  been written to it.
\<close>

definition validate_key :: "UDF_ARGS \<Rightarrow> 32 word \<Rightarrow> fault + (bool \<times> string option)" where
  "validate_key args to_validate =
     (if to_validate AND VALIDATE_KEY \<noteq> 0 then
        (case read_arg args 2 of
           Inl f \<Rightarrow> Inl f
         | Inr a \<Rightarrow>
             if arg_ptr a = None \<or> arg_type a \<noteq> STRING_RESULT
             then Inr (True, Some ''Mismatch encountered. A string argument is expected for key.'')
             else Inr (False, None))
      else Inr (False, None))"

definition validate_key_length :: "UDF_ARGS \<Rightarrow> 32 word \<Rightarrow> fault + (bool \<times> string option)" where
  "validate_key_length args to_validate =
     (if to_validate AND VALIDATE_KEY_LENGTH \<noteq> 0 then
        (case read_arg args 2 of
           Inl f \<Rightarrow> Inl f
         | Inr a \<Rightarrow>
             (case arg_ptr a of
                None \<Rightarrow> Inr (True,
                  Some ''Mismatch encountered. An integer argument is expected for key length.'')
              | Some key_length \<Rightarrow>
                  if arg_type a \<noteq> INT_RESULT
                  then Inr (True,
                    Some ''Mismatch encountered. An integer argument is expected for key length.'')
                  else if int MAX_KEYRING_UDF_KEY_TEXT_LENGTH < sint key_length
                  then Inr (True,
                    Some ''The key is to long. The max length of the key is 16384'')
                  else validate_key args to_validate))
      else validate_key args to_validate)"

definition validate_key_type :: "UDF_ARGS \<Rightarrow> 32 word \<Rightarrow> fault + (bool \<times> string option)" where
  "validate_key_type args to_validate =
     (if to_validate AND VALIDATE_KEY_TYPE \<noteq> 0 then
        (case read_arg args 1 of
           Inl f \<Rightarrow> Inl f
         | Inr a \<Rightarrow>
             if arg_ptr a = None \<or> arg_type a \<noteq> STRING_RESULT
             then Inr (True,
               Some ''Mismatch encountered. A string argument is expected for key type.'')
             else validate_key_length args to_validate)
      else validate_key_length args to_validate)"

definition validate_key_id :: "UDF_ARGS \<Rightarrow> 32 word \<Rightarrow> fault + (bool \<times> string option)" where
  "validate_key_id args to_validate =
     (if to_validate AND VALIDATE_KEY_ID \<noteq> 0 then
        (case read_arg args 0 of
           Inl f \<Rightarrow> Inl f
         | Inr a \<Rightarrow>
             if arg_ptr a = None \<or> arg_type a \<noteq> STRING_RESULT
             then Inr (True,
               Some ''Mismatch encountered. A string argument is expected for key id.'')
             else validate_key_type args to_validate)
      else validate_key_type args to_validate)"

text \<open>
  \<^verbatim>\<open>validate\<close> returns its result, the message buffer and the service calls it has made.
  The plugin's flag is tested first, with no call. Then
  \<^verbatim>\<open>thd_get_security_context(...) || security_context_get_option(...)\<close>: the second call
  is made only when the first has succeeded, and a failure of either returns true with no
  message. The checks of the arguments call no service.
\<close>

definition validate ::
  "environment \<Rightarrow> UDF_ARGS \<Rightarrow> 32 word \<Rightarrow> 32 word
     \<Rightarrow> fault + (bool \<times> string option \<times> service_call list)" where
  "validate env args expected_arg_count to_validate =
     (if \<not> is_keyring_udf_initialized env
      then Inr (True, Some (''This function requires keyring_udf plugin which is not installed.''
                  @ '' Please install keyring_udf plugin and try again.''), [])
      else if thd_get_security_context_fails env
      then Inr (True, None, [Thd_get_security_context])
      else (let lookups = [Thd_get_security_context,
                           Security_context_get_option ''privilege_execute'']
            in case privilege_execute env of
              None \<Rightarrow> Inr (True, None, lookups)
            | Some False \<Rightarrow>
                Inr (True, Some (''The user is not privileged to execute this function. ''
                  @ ''User needs to have EXECUTE permission.''), lookups)
            | Some True \<Rightarrow>
                if length args \<noteq> unat expected_arg_count
                then Inr (True, Some ''Mismatch in number of arguments to the function.'',
                       lookups)
                else (case validate_key_id args to_validate of
                        Inl f \<Rightarrow> Inl f
                      | Inr (failed, msg) \<Rightarrow> Inr (failed, msg, lookups))))"

subsection \<open>keyring\_udf\_func\_init and the six init functions\<close>

definition keyring_udf_func_init ::
  "environment \<Rightarrow> UDF_INIT \<Rightarrow> UDF_ARGS \<Rightarrow> 32 word \<Rightarrow> nat option \<Rightarrow> nat
     \<Rightarrow> fault + init_result" where
  "keyring_udf_func_init env initid0 args to_validate max_lenth_to_return
       size_of_memory_to_allocate =
     (let initid1 = initid0\<lparr>ptr := None\<rparr> in
      case get_args_count_from_validation_request to_validate of
        None \<Rightarrow> Inl No_return
      | Some expected_arg_count \<Rightarrow>
          (case validate env args expected_arg_count to_validate of
             Inl f \<Rightarrow> Inl f
           | Inr (True, msg, lookups) \<Rightarrow>
               Inr \<lparr>returned = True, message = msg, initid = initid1, calls = lookups\<rparr>
           | Inr (False, msg, lookups) \<Rightarrow>
               (let initid2 = (case max_lenth_to_return of
                                 Some m \<Rightarrow> initid1\<lparr>max_length := m\<rparr>
                               | None \<Rightarrow> initid1);
                    initid3 = initid2\<lparr>maybe_null := True\<rparr>
                in if size_of_memory_to_allocate \<noteq> 0 \<and> allocation_fails env
                   then Inr \<lparr>returned = True, message = msg, initid = initid3,
                          calls = lookups\<rparr>
                   else Inr \<lparr>returned = False, message = msg,
                          initid = (if size_of_memory_to_allocate \<noteq> 0
                                    then initid3\<lparr>ptr :=
                                           Some (replicate size_of_memory_to_allocate 0)\<rparr>
                                    else initid3),
                          calls = lookups
                            @ map Argument_set [0 ..< unat expected_arg_count]\<rparr>)))"

definition keyring_key_store_init ::
  "environment \<Rightarrow> UDF_INIT \<Rightarrow> UDF_ARGS \<Rightarrow> fault + init_result" where
  "keyring_key_store_init env initid0 args =
     keyring_udf_func_init env initid0 args
       (VALIDATE_KEY_ID OR VALIDATE_KEY_TYPE OR VALIDATE_KEY) (Some 1) 0"

definition keyring_key_fetch_init ::
  "environment \<Rightarrow> UDF_INIT \<Rightarrow> UDF_ARGS \<Rightarrow> fault + init_result" where
  "keyring_key_fetch_init env initid0 args =
     keyring_udf_func_init env initid0 args VALIDATE_KEY_ID
       (Some MAX_KEYRING_UDF_KEY_TEXT_LENGTH) MAX_KEYRING_UDF_KEY_TEXT_LENGTH"

text \<open>
  \<^verbatim>\<open>keyring_udf_func_init(...) || udf_metadata_service->result_set(...)\<close>: the service
  is called only when the first operand is false.
\<close>

definition keyring_key_type_fetch_init ::
  "environment \<Rightarrow> UDF_INIT \<Rightarrow> UDF_ARGS \<Rightarrow> fault + init_result" where
  "keyring_key_type_fetch_init env initid0 args =
     (case keyring_udf_func_init env initid0 args VALIDATE_KEY_ID
             (Some KEYRING_UDF_KEY_TYPE_LENGTH) KEYRING_UDF_KEY_TYPE_LENGTH of
        Inl f \<Rightarrow> Inl f
      | Inr r \<Rightarrow>
          if returned r then Inr r
          else Inr (r\<lparr>returned := result_set_fails env, calls := calls r @ [Result_set]\<rparr>))"

definition keyring_key_length_fetch_init ::
  "environment \<Rightarrow> UDF_INIT \<Rightarrow> UDF_ARGS \<Rightarrow> fault + init_result" where
  "keyring_key_length_fetch_init env initid0 args =
     keyring_udf_func_init env initid0 args VALIDATE_KEY_ID None 0"

definition keyring_key_remove_init ::
  "environment \<Rightarrow> UDF_INIT \<Rightarrow> UDF_ARGS \<Rightarrow> fault + init_result" where
  "keyring_key_remove_init env initid0 args =
     keyring_udf_func_init env initid0 args VALIDATE_KEY_ID (Some 1) 0"

definition keyring_key_generate_init ::
  "environment \<Rightarrow> UDF_INIT \<Rightarrow> UDF_ARGS \<Rightarrow> fault + init_result" where
  "keyring_key_generate_init env initid0 args =
     keyring_udf_func_init env initid0 args
       (VALIDATE_KEY_ID OR VALIDATE_KEY_TYPE OR VALIDATE_KEY_LENGTH) (Some 1) 0"

fun udf_init ::
  "udf_function \<Rightarrow> environment \<Rightarrow> UDF_INIT \<Rightarrow> UDF_ARGS \<Rightarrow> fault + init_result" where
  "udf_init Keyring_key_store = keyring_key_store_init"
| "udf_init Keyring_key_fetch = keyring_key_fetch_init"
| "udf_init Keyring_key_type_fetch = keyring_key_type_fetch_init"
| "udf_init Keyring_key_length_fetch = keyring_key_length_fetch_init"
| "udf_init Keyring_key_remove = keyring_key_remove_init"
| "udf_init Keyring_key_generate = keyring_key_generate_init"

subsection \<open>The conditions under which an init call is to fail\<close>

text \<open>
  The five conditions, stated on the inputs alone: the plugin is not initialized; the user
  lacks the EXECUTE privilege; the number of arguments is not the number of flags requested;
  an argument that a requested flag validates is null or of the wrong type; the key length
  that is validated exceeds 16384.
\<close>

definition bad_argument :: "UDF_ARGS \<Rightarrow> nat \<Rightarrow> Item_result \<Rightarrow> bool" where
  "bad_argument args i t =
     (i < length args \<and> (arg_ptr (args ! i) = None \<or> arg_type (args ! i) \<noteq> t))"

definition invalid_validated_argument :: "32 word \<Rightarrow> UDF_ARGS \<Rightarrow> bool" where
  "invalid_validated_argument to_validate args =
     ((to_validate AND VALIDATE_KEY_ID \<noteq> 0 \<and> bad_argument args 0 STRING_RESULT)
      \<or> (to_validate AND VALIDATE_KEY_TYPE \<noteq> 0 \<and> bad_argument args 1 STRING_RESULT)
      \<or> (to_validate AND VALIDATE_KEY_LENGTH \<noteq> 0 \<and> bad_argument args 2 INT_RESULT)
      \<or> (to_validate AND VALIDATE_KEY \<noteq> 0 \<and> bad_argument args 2 STRING_RESULT))"

definition key_length_too_long :: "32 word \<Rightarrow> UDF_ARGS \<Rightarrow> bool" where
  "key_length_too_long to_validate args =
     (to_validate AND VALIDATE_KEY_LENGTH \<noteq> 0 \<and> 2 < length args
      \<and> (case arg_ptr (args ! 2) of None \<Rightarrow> False | Some key_length \<Rightarrow> 16384 < sint key_length))"

definition must_be_rejected :: "udf_function \<Rightarrow> environment \<Rightarrow> UDF_ARGS \<Rightarrow> bool" where
  "must_be_rejected f env args =
     (\<not> is_keyring_udf_initialized env
      \<or> has_current_user_execute_privilege env = Some False
      \<or> length args \<noteq> popcount (requested_validation f)
      \<or> invalid_validated_argument (requested_validation f) args
      \<or> key_length_too_long (requested_validation f) args)"

text \<open>The messages that \<^verbatim>\<open>validate\<close> can write.\<close>

definition diagnostics :: "string list" where
  "diagnostics =
     [''This function requires keyring_udf plugin which is not installed.''
        @ '' Please install keyring_udf plugin and try again.'',
      ''The user is not privileged to execute this function. ''
        @ ''User needs to have EXECUTE permission.'',
      ''Mismatch in number of arguments to the function.'',
      ''Mismatch encountered. A string argument is expected for key id.'',
      ''Mismatch encountered. A string argument is expected for key type.'',
      ''Mismatch encountered. An integer argument is expected for key length.'',
      ''The key is to long. The max length of the key is 16384'',
      ''Mismatch encountered. A string argument is expected for key.'']"

text \<open>What a rejecting result of \<^verbatim>\<open>validate\<close> looks like, for the proofs below.\<close>

definition rejected_with_message :: "fault + (bool \<times> string option) \<Rightarrow> bool" where
  "rejected_with_message v = (\<exists>m. v = Inr (True, Some m) \<and> m \<in> set diagnostics)"

definition security_lookups :: "environment \<Rightarrow> service_call list" where
  "security_lookups env =
     (if \<not> is_keyring_udf_initialized env then []
      else if thd_get_security_context_fails env then [Thd_get_security_context]
      else [Thd_get_security_context, Security_context_get_option ''privilege_execute''])"

definition verdict_ok ::
  "environment \<Rightarrow> bool \<times> string option \<times> service_call list \<Rightarrow> bool" where
  "verdict_ok env v =
     (fst v
      \<and> (fst (snd v) = None \<longleftrightarrow>
           is_keyring_udf_initialized env \<and> has_current_user_execute_privilege env = None)
      \<and> (\<forall>m. fst (snd v) = Some m \<longrightarrow> m \<in> set diagnostics)
      \<and> snd (snd v) = security_lookups env)"

section \<open>storage/innobase/include/srv0srv.h\<close>

text \<open>
  The header declares the types and functions of the server's background threads; the
  function bodies (srv0srv.cc) are not among the sources. The types below are the header's.
  Each function is modelled from its declaration, the comment on it and the specification.
\<close>

subsection \<open>The thread table\<close>

text \<open>\<^verbatim>\<open>enum srv_thread_type\<close>: the types of threads existing in the system.\<close>

datatype srv_thread_type = SRV_NONE | SRV_WORKER | SRV_PURGE | SRV_MASTER

text \<open>
  \<^verbatim>\<open>struct srv_slot_t\<close>: a thread slot in the thread table. \<^verbatim>\<open>suspend_time\<close> is a
  monotonic time, \<^verbatim>\<open>wait_timeout\<close> an \<^verbatim>\<open>ulong\<close>, \<^verbatim>\<open>reservation_no\<close> an
  \<^verbatim>\<open>uint64_t\<close>. The event of a slot is a binary signal: \<open>True\<close> once it has been set.
  \<^verbatim>\<open>thr\<close> is a pointer to the suspended query thread, \<open>None\<close> when null.
\<close>

record srv_slot_t =
  type :: srv_thread_type
  in_use :: bool
  suspended :: bool
  suspend_time :: int
  reservation_no :: "64 word"
  wait_timeout :: nat
  event :: bool
  thr :: "nat option"

text \<open>
  Modelled from the spec: the server's shared state \<^verbatim>\<open>srv_sys\<close>, of which the header
  names the mutex, the thread table and the activity count; its declaration (srv0srv.cc) is
  not among the sources. The counters are \<^verbatim>\<open>ulint\<close>, 64-bit words whose \<open>+\<close> wraps.
\<close>

record srv_sys_t =
  sys_threads :: "srv_slot_t list"
  activity_count :: "64 word"
  ibuf_merge_activity_count :: "64 word"

subsection \<open>The activity count\<close>

text \<open>
  Modelled from the spec: \<^verbatim>\<open>ULINT_UNDEFINED\<close>, the default of the second parameter of
  \<^verbatim>\<open>srv_check_activity\<close>; the macro is defined outside the sources. It is the largest
  \<^verbatim>\<open>ulint\<close>.
\<close>

definition ULINT_UNDEFINED :: "64 word" where
  "ULINT_UNDEFINED = - 1"

text \<open>
  Modelled from the spec: \<^verbatim>\<open>srv_get_activity_count\<close>, \<^verbatim>\<open>srv_inc_activity_count\<close> and
  \<^verbatim>\<open>srv_check_activity\<close>, declared in srv0srv.h, bodies in srv0srv.cc (not among the
  sources). The activity count is an unsigned counter read by a snapshot and incremented by one
  per unit of work, which may be tagged as caused by the background change buffer merge.
  \<^verbatim>\<open>srv_check_activity\<close> returns false if the activity counter has not changed since the
  old count. With a second argument other than \<^verbatim>\<open>ULINT_UNDEFINED\<close> the merge is treated as
  keeping the server idle: activity is reported only if the counter has advanced by something
  else than merges.
\<close>

definition srv_get_activity_count :: "srv_sys_t \<Rightarrow> 64 word" where
  "srv_get_activity_count sys = activity_count sys"

definition srv_inc_activity_count :: "bool \<Rightarrow> srv_sys_t \<Rightarrow> srv_sys_t" where
  "srv_inc_activity_count ibuf_merge_activity sys =
     sys\<lparr>activity_count := activity_count sys + 1,
         ibuf_merge_activity_count :=
           (if ibuf_merge_activity then ibuf_merge_activity_count sys + 1
            else ibuf_merge_activity_count sys)\<rparr>"

definition srv_check_activity :: "srv_sys_t \<Rightarrow> 64 word \<Rightarrow> 64 word \<Rightarrow> bool" where
  "srv_check_activity sys old_activity_count old_ibuf_merge_activity_count =
     (if old_ibuf_merge_activity_count = ULINT_UNDEFINED
      then activity_count sys \<noteq> old_activity_count
      else activity_count sys \<noteq> old_activity_count
         \<and> activity_count sys - old_activity_count
              \<noteq> ibuf_merge_activity_count sys - old_ibuf_merge_activity_count)"

subsection \<open>Releasing suspended threads\<close>

text \<open>A slot holds a thread of the given type that is waiting for the event of the slot.\<close>

definition waiting :: "srv_thread_type \<Rightarrow> srv_slot_t \<Rightarrow> bool" where
  "waiting t slot = (in_use slot \<and> type slot = t \<and> suspended slot)"

text \<open>
  Modelled from the spec: \<^verbatim>\<open>srv_release_threads\<close>, declared in srv0srv.h, body in
  srv0srv.cc (not among the sources). It releases threads of the type given from suspension in
  the thread table: it scans the slots and wakes up to \<^verbatim>\<open>n\<close> of those that are suspended
  and belong to a thread of the type, and returns the number of threads released. Waking a
  slot clears \<^verbatim>\<open>suspended\<close> and sets the event of the slot. The caller holds the server
  mutex, so the scan is one step. The scan takes the budget that is left, \<^verbatim>\<open>n\<close> less the
  threads already released.
\<close>

fun release_scan :: "srv_thread_type \<Rightarrow> nat \<Rightarrow> srv_slot_t list \<Rightarrow> nat \<times> srv_slot_t list" where
  "release_scan t n [] = (0, [])"
| "release_scan t n (slot # slots) =
     (if 0 < n \<and> in_use slot \<and> type slot = t \<and> suspended slot
      then (case release_scan t (n - 1) slots of
              (count, slots') \<Rightarrow>
                (Suc count, slot\<lparr>suspended := False, event := True\<rparr> # slots'))
      else (case release_scan t n slots of
              (count, slots') \<Rightarrow> (count, slot # slots')))"

definition srv_release_threads ::
  "srv_thread_type \<Rightarrow> 64 word \<Rightarrow> srv_sys_t \<Rightarrow> 64 word \<times> srv_sys_t" where
  "srv_release_threads t n sys =
     (case release_scan t (unat n) (sys_threads sys) of
        (count, slots') \<Rightarrow> (of_nat count, sys\<lparr>sys_threads := slots'\<rparr>))"

text \<open>
  What a release may do to one slot: nothing, or wake it if it was waiting with the type.
\<close>

definition woken :: "srv_thread_type \<Rightarrow> srv_slot_t \<Rightarrow> srv_slot_t \<Rightarrow> bool" where
  "woken t old new =
     (new = old \<or> (waiting t old \<and> new = old\<lparr>suspended := False, event := True\<rparr>))"

text \<open>A thread table with one suspended worker thread and one suspended purge thread.\<close>

definition two_slots :: srv_sys_t where
  "two_slots =
     \<lparr>sys_threads =
        [\<lparr>type = SRV_WORKER, in_use = True, suspended = True, suspend_time = 0,
          reservation_no = 0, wait_timeout = 0, event = False, thr = None\<rparr>,
         \<lparr>type = SRV_PURGE, in_use = True, suspended = True, suspend_time = 0,
          reservation_no = 0, wait_timeout = 0, event = False, thr = None\<rparr>],
      activity_count = 0, ibuf_merge_activity_count = 0\<rparr>"

section \<open>Properties of keyring\_udf.cc\<close>

subsection \<open>Counting the bits of a non-negative mask\<close>

lemma finite_bits: "finite {n. bit (w :: 32 word) n}"
proof (rule finite_subset)
  show "{n. bit w n} \<subseteq> {..<32}" by (auto dest: bit_imp_le_length)
qed simp

lemma popcount_le: "popcount w \<le> 32"
proof -
  have "{n. bit w n} \<subseteq> {..<32}" by (auto dest: bit_imp_le_length)
  then have "card {n. bit w n} \<le> card {..<32::nat}" by (intro card_mono) simp_all
  then show ?thesis by (simp add: popcount_def)
qed

lemma nonneg_msb: "(0 \<le> sint (w :: 32 word)) = (\<not> bit w 31)"
  using bit_last_iff [of w] by (simp add: not_less)

lemma nonneg_signed_drop:
  assumes "0 \<le> sint (w :: 32 word)"
  shows "signed_drop_bit 1 w = drop_bit 1 w"
proof (rule bit_word_eqI)
  fix n assume "n < LENGTH(32)"
  with assms show "bit (signed_drop_bit 1 w) n = bit (drop_bit 1 w) n"
    by (auto simp: bit_signed_drop_bit_iff bit_drop_bit_eq nonneg_msb dest: bit_imp_le_length)
qed

lemma nonneg_drop: "0 \<le> sint (drop_bit 1 (w :: 32 word))"
  by (auto simp: nonneg_msb bit_drop_bit_eq dest: bit_imp_le_length)

lemma unat_drop_less: "w \<noteq> 0 \<Longrightarrow> unat (drop_bit 1 (w :: 32 word)) < unat w"
proof -
  assume "w \<noteq> 0"
  then have "0 < unat w" by (simp add: unat_gt_0)
  moreover have "unat (drop_bit 1 w) = unat w div 2"
    unfolding unat_drop_bit_eq by (simp add: drop_bit_eq_div)
  ultimately show ?thesis by simp
qed

lemma and_1_bit0: "((w :: 32 word) AND 1 \<noteq> 0) = bit w 0"
  by (simp add: bit_iff_and_push_bit_not_eq_0)

lemma popcount_step:
  "popcount w = (if bit w 0 then 1 else 0) + popcount (drop_bit 1 w)"
proof -
  have eq: "{n. bit w n} = (if bit w 0 then {0} else {}) \<union> Suc ` {n. bit (drop_bit 1 w) n}"
    apply (auto simp: bit_drop_bit_eq image_iff)
    subgoal for x by (cases x) auto
    subgoal for x by (cases x) auto
    done
  have fin: "finite (Suc ` {n. bit (drop_bit 1 w) n})" by (simp add: finite_bits)
  have c: "card (Suc ` {n. bit (drop_bit 1 w) n}) = card {n. bit (drop_bit 1 w) n}"
    by (simp add: card_image)
  show ?thesis
    unfolding popcount_def using c by (subst eq) (auto simp: fin card_insert_if)
qed

lemma count_bits_loop_popcount:
  "0 \<le> sint to_validate \<Longrightarrow>
   count_bits_loop to_validate c = Some (c + of_nat (popcount to_validate))"
proof (induction "unat to_validate" arbitrary: to_validate c rule: less_induct)
  case less
  show ?case
  proof (cases "to_validate = 0")
    case True
    then show ?thesis by (simp add: count_bits_loop.simps popcount_def bot_fun_def)
  next
    case False
    let ?w = "drop_bit 1 to_validate"
    have sd: "signed_drop_bit 1 to_validate = ?w"
      using less.prems by (rule nonneg_signed_drop)
    have ih: "count_bits_loop ?w c' = Some (c' + of_nat (popcount ?w))" for c'
      by (rule less.hyps [OF unat_drop_less [OF False] nonneg_drop])
    have "count_bits_loop to_validate c =
            count_bits_loop ?w (if bit to_validate 0 then c + 1 else c)"
      using False by (subst count_bits_loop.simps) (simp only: sd and_1_bit0 if_False)
    also have "\<dots> = Some ((if bit to_validate 0 then c + 1 else c) + of_nat (popcount ?w))"
      by (rule ih)
    also have "\<dots> = Some (c + of_nat (popcount to_validate))"
      by (subst (2) popcount_step) simp
    finally show ?thesis .
  qed
qed

lemma unat_of_nat_popcount: "unat (of_nat (popcount w) :: 32 word) = popcount w"
proof -
  have "popcount w < 2 ^ 32" using popcount_le [of w] by simp
  then show ?thesis by (simp add: unat_of_nat take_bit_nat_eq_self)
qed

lemma args_count_of_mask:
  "0 \<le> sint to_validate \<Longrightarrow>
   \<exists>c. get_args_count_from_validation_request to_validate = Some c \<and> unat c = popcount to_validate"
  by (simp add: get_args_count_from_validation_request_def count_bits_loop_popcount
      unat_of_nat_popcount)

lemma args_count_of_udf:
  "get_args_count_from_validation_request (requested_validation f) =
     Some (case f of Keyring_key_store \<Rightarrow> 3 | Keyring_key_generate \<Rightarrow> 3 | _ \<Rightarrow> 1)"
  by (cases f)
    (simp_all add: get_args_count_from_validation_request_def count_bits_loop.simps
      VALIDATE_KEY_def VALIDATE_KEY_ID_def VALIDATE_KEY_TYPE_def VALIDATE_KEY_LENGTH_def)

text \<open>
  Claim C10. For every non-negative mask \<^verbatim>\<open>to_validate\<close>,
  \<^verbatim>\<open>get_args_count_from_validation_request\<close> returns, and what it returns is the number of
  set bits of the mask. In particular the expected argument count of each keyring function is
  the number of \<^verbatim>\<open>VALIDATE_*\<close> flags its \<^verbatim>\<open>*_init\<close> requests: 3 for
  \<^verbatim>\<open>keyring_key_store\<close> (key id, key type, key) and for \<^verbatim>\<open>keyring_key_generate\<close>
  (key id, key type, key length), 1 for the four functions that validate the key id only.
\<close>

theorem get_args_count_is_popcount:
  "(\<forall>to_validate. 0 \<le> sint to_validate \<longrightarrow>
      (\<exists>c. get_args_count_from_validation_request to_validate = Some c
           \<and> unat c = popcount to_validate))
   \<and> get_args_count_from_validation_request
        (VALIDATE_KEY_ID OR VALIDATE_KEY_TYPE OR VALIDATE_KEY) = Some 3
   \<and> popcount (VALIDATE_KEY_ID OR VALIDATE_KEY_TYPE OR VALIDATE_KEY) = 3
   \<and> (\<forall>f. \<exists>c. get_args_count_from_validation_request (requested_validation f) = Some c
           \<and> unat c = popcount (requested_validation f)
           \<and> c = (case f of Keyring_key_store \<Rightarrow> 3 | Keyring_key_generate \<Rightarrow> 3 | _ \<Rightarrow> 1))"
proof (intro conjI allI impI)
  fix to_validate :: "32 word"
  assume "0 \<le> sint to_validate"
  then show "\<exists>c. get_args_count_from_validation_request to_validate = Some c
      \<and> unat c = popcount to_validate"
    by (rule args_count_of_mask)
next
  show "get_args_count_from_validation_request
      (VALIDATE_KEY_ID OR VALIDATE_KEY_TYPE OR VALIDATE_KEY) = Some 3"
    using args_count_of_udf [of Keyring_key_store] by simp
next
  have nonneg: "0 \<le> sint (VALIDATE_KEY_ID OR VALIDATE_KEY_TYPE OR VALIDATE_KEY)"
    by (simp add: VALIDATE_KEY_def VALIDATE_KEY_ID_def VALIDATE_KEY_TYPE_def)
  from args_count_of_mask [OF nonneg] args_count_of_udf [of Keyring_key_store]
  show "popcount (VALIDATE_KEY_ID OR VALIDATE_KEY_TYPE OR VALIDATE_KEY) = 3"
    by auto
next
  fix f
  have nonneg: "0 \<le> sint (requested_validation f)"
    by (cases f)
      (simp_all add: VALIDATE_KEY_def VALIDATE_KEY_ID_def VALIDATE_KEY_TYPE_def
        VALIDATE_KEY_LENGTH_def)
  from args_count_of_mask [OF nonneg] args_count_of_udf [of f]
  show "\<exists>c. get_args_count_from_validation_request (requested_validation f) = Some c
      \<and> unat c = popcount (requested_validation f)
      \<and> c = (case f of Keyring_key_store \<Rightarrow> 3 | Keyring_key_generate \<Rightarrow> 3 | _ \<Rightarrow> 1)"
    by auto
qed

theorem get_args_count_is_popcount_witness:
  "0 \<le> sint (11 :: 32 word)
   \<and> get_args_count_from_validation_request 11 = Some 3
   \<and> popcount 11 = 3"
proof -
  have nonneg: "0 \<le> sint (11 :: 32 word)" by simp
  have run: "get_args_count_from_validation_request 11 = Some 3"
    by (simp add: get_args_count_from_validation_request_def count_bits_loop.simps)
  from get_args_count_is_popcount nonneg
  have "\<exists>c. get_args_count_from_validation_request 11 = Some c \<and> unat c = popcount 11"
    by blast
  with run nonneg show ?thesis by auto
qed

text \<open>
  The restriction to non-negative masks is needed: on a negative mask the arithmetic shift
  keeps the sign bit, the mask never becomes 0 and the function does not return.
\<close>

lemma negative_signed_drop: "sint (w :: 32 word) < 0 \<Longrightarrow> sint (signed_drop_bit 1 w) < 0"
  by (simp add: sint_signed_drop_bit_eq drop_bit_eq_div)

lemma returns_only_nonnegative_step:
  assumes ih: "\<And>a b z. f a b = Some z \<Longrightarrow> 0 \<le> sint (a :: 32 word)"
    and eq: "(if to_validate = 0 then Some args_count
      else f (signed_drop_bit 1 to_validate)
            (if to_validate AND 1 \<noteq> 0 then args_count + 1 else args_count)) = Some (y :: 32 word)"
  shows "0 \<le> sint to_validate"
proof (cases "to_validate = 0")
  case True
  then show ?thesis by simp
next
  case False
  with eq have "f (signed_drop_bit 1 to_validate)
      (if to_validate AND 1 \<noteq> 0 then args_count + 1 else args_count) = Some y"
    by simp
  then have shifted: "0 \<le> sint (signed_drop_bit 1 to_validate)" by (rule ih)
  show ?thesis
  proof (rule ccontr)
    assume "\<not> 0 \<le> sint to_validate"
    then have "sint to_validate < 0" by simp
    from negative_signed_drop [OF this] shifted show False by linarith
  qed
qed

lemma returns_only_nonnegative:
  assumes "count_bits_loop to_validate c = Some y"
  shows "0 \<le> sint to_validate"
  by (rule count_bits_loop.raw_induct [where P = "\<lambda>a b z. 0 \<le> sint a", OF _ assms])
    (rule returns_only_nonnegative_step)

lemma negative_mask_never_returns:
  "sint to_validate < 0 \<Longrightarrow> get_args_count_from_validation_request to_validate = None"
  unfolding get_args_count_from_validation_request_def
  using returns_only_nonnegative [of to_validate 0] by (cases "count_bits_loop to_validate 0") auto

subsection \<open>Init calls that must fail\<close>

lemma popcount_requested:
  "popcount (requested_validation f) =
     (case f of Keyring_key_store \<Rightarrow> 3 | Keyring_key_generate \<Rightarrow> 3 | _ \<Rightarrow> 1)"
proof -
  have nonneg: "0 \<le> sint (requested_validation f)"
    by (cases f)
      (simp_all add: VALIDATE_KEY_def VALIDATE_KEY_ID_def VALIDATE_KEY_TYPE_def
        VALIDATE_KEY_LENGTH_def)
  from args_count_of_mask [OF nonneg] args_count_of_udf [of f]
  show ?thesis by (cases f) auto
qed

lemmas flag_defs = VALIDATE_KEY_def VALIDATE_KEY_ID_def VALIDATE_KEY_TYPE_def VALIDATE_KEY_LENGTH_def

lemma list1: "length xs = Suc 0 \<Longrightarrow> \<exists>a. xs = [a]"
  by (cases xs) auto

lemma list3: "length xs = 3 \<Longrightarrow> \<exists>a b c. xs = [a, b, c]"
  by (auto simp: numeral_3_eq_3 length_Suc_conv)

lemmas stage_defs = validate_key_id_def validate_key_type_def validate_key_length_def
  validate_key_def read_arg_def

lemmas condition_defs = invalid_validated_argument_def key_length_too_long_def bad_argument_def

lemma key_id_only_rejects:
  assumes "length args = 1"
    and "invalid_validated_argument VALIDATE_KEY_ID args \<or> key_length_too_long VALIDATE_KEY_ID args"
  shows "rejected_with_message (validate_key_id args VALIDATE_KEY_ID)"
proof -
  from assms(1) obtain a where args: "args = [a]" using list1 by auto
  from assms(2) show ?thesis unfolding args
    by (auto simp: stage_defs condition_defs flag_defs rejected_with_message_def diagnostics_def)
qed

lemma store_rejects:
  assumes "length args = 3"
    and "invalid_validated_argument (VALIDATE_KEY_ID OR VALIDATE_KEY_TYPE OR VALIDATE_KEY) args
       \<or> key_length_too_long (VALIDATE_KEY_ID OR VALIDATE_KEY_TYPE OR VALIDATE_KEY) args"
  shows "rejected_with_message
     (validate_key_id args (VALIDATE_KEY_ID OR VALIDATE_KEY_TYPE OR VALIDATE_KEY))"
proof -
  from assms(1) obtain a b c where args: "args = [a, b, c]" using list3 by blast
  from assms(2) show ?thesis unfolding args
    by (auto simp: stage_defs condition_defs flag_defs rejected_with_message_def diagnostics_def)
qed

lemma generate_rejects:
  assumes "length args = 3"
    and "invalid_validated_argument (VALIDATE_KEY_ID OR VALIDATE_KEY_TYPE OR VALIDATE_KEY_LENGTH) args
       \<or> key_length_too_long (VALIDATE_KEY_ID OR VALIDATE_KEY_TYPE OR VALIDATE_KEY_LENGTH) args"
  shows "rejected_with_message
     (validate_key_id args (VALIDATE_KEY_ID OR VALIDATE_KEY_TYPE OR VALIDATE_KEY_LENGTH))"
proof -
  from assms(1) obtain a b c where args: "args = [a, b, c]" using list3 by blast
  from assms(2) show ?thesis unfolding args
    by (auto simp: stage_defs condition_defs flag_defs rejected_with_message_def diagnostics_def
        MAX_KEYRING_UDF_KEY_TEXT_LENGTH_def MAX_KEYRING_UDF_KEY_LENGTH_def
        split: option.splits)
qed


lemma arg_checks_reject:
  assumes "length args = popcount (requested_validation f)"
    and "invalid_validated_argument (requested_validation f) args
       \<or> key_length_too_long (requested_validation f) args"
  shows "rejected_with_message (validate_key_id args (requested_validation f))"
proof -
  from assms(1) have len:
    "length args = (case f of Keyring_key_store \<Rightarrow> 3 | Keyring_key_generate \<Rightarrow> 3 | _ \<Rightarrow> 1)"
    by (simp add: popcount_requested)
  with assms(2) show ?thesis
    by (cases f) (simp_all add: key_id_only_rejects store_rejects generate_rejects)
qed

lemma lookup_cases:
  "has_current_user_execute_privilege env = None
     \<longleftrightarrow> thd_get_security_context_fails env \<or> privilege_execute env = None"
  by (simp add: has_current_user_execute_privilege_def)

lemma validate_rejects:
  assumes rej: "must_be_rejected f env args"
    and cnt: "unat expected_arg_count = popcount (requested_validation f)"
  shows "\<exists>v. validate env args expected_arg_count (requested_validation f) = Inr v
            \<and> verdict_ok env v"
proof (cases "is_keyring_udf_initialized env")
  case False
  then show ?thesis
    by (simp add: validate_def verdict_ok_def diagnostics_def security_lookups_def)
next
  case init: True
  show ?thesis
  proof (cases "thd_get_security_context_fails env")
    case True
    with init show ?thesis
      by (simp add: validate_def verdict_ok_def security_lookups_def
          has_current_user_execute_privilege_def)
  next
    case ctx: False
    then have priv: "has_current_user_execute_privilege env = privilege_execute env"
      by (simp add: has_current_user_execute_privilege_def)
    show ?thesis
    proof (cases "privilege_execute env")
      case None
      with init ctx priv show ?thesis
        by (simp add: validate_def verdict_ok_def security_lookups_def)
    next
      case (Some privileged)
      show ?thesis
      proof (cases privileged)
        case False
        with init ctx priv Some show ?thesis
          by (simp add: validate_def verdict_ok_def diagnostics_def security_lookups_def)
      next
        case True
        show ?thesis
        proof (cases "length args = popcount (requested_validation f)")
          case False
          with init ctx priv Some True cnt show ?thesis
            by (simp add: validate_def verdict_ok_def diagnostics_def security_lookups_def)
        next
          case len: True
          from rej init priv Some True len
          have "invalid_validated_argument (requested_validation f) args
              \<or> key_length_too_long (requested_validation f) args"
            by (simp add: must_be_rejected_def)
          from arg_checks_reject [OF len this]
          obtain m where "validate_key_id args (requested_validation f) = Inr (True, Some m)"
            and "m \<in> set diagnostics"
            by (auto simp: rejected_with_message_def)
          with init ctx priv Some True len cnt show ?thesis
            by (simp add: validate_def verdict_ok_def security_lookups_def)
        qed
      qed
    qed
  qed
qed

lemma no_key_store_in_lookups: "\<not> list_ex key_store_call (security_lookups env)"
  by (simp add: security_lookups_def)

lemma func_init_rejects:
  assumes rej: "must_be_rejected f env args"
  shows "\<exists>r. keyring_udf_func_init env ini args (requested_validation f) max_len sz = Inr r
     \<and> returned r \<and> calls r = security_lookups env \<and> ptr (initid r) = None
     \<and> (message r = None \<longleftrightarrow>
          is_keyring_udf_initialized env \<and> has_current_user_execute_privilege env = None)
     \<and> (\<forall>m. message r = Some m \<longrightarrow> m \<in> set diagnostics)"
proof -
  obtain c where c: "get_args_count_from_validation_request (requested_validation f) = Some c"
    and cnt: "unat c = popcount (requested_validation f)"
    using args_count_of_udf [of f] popcount_requested [of f] by (cases f) auto
  from validate_rejects [OF rej cnt]
  obtain v' where v': "validate env args c (requested_validation f) = Inr v'"
    and ok': "verdict_ok env v'"
    by blast
  from ok' have "fst v'" and "snd (snd v') = security_lookups env"
    by (simp_all add: verdict_ok_def)
  then obtain msg where "v' = (True, msg, security_lookups env)"
    by (cases v') auto
  with v' ok'
  have v: "validate env args c (requested_validation f) = Inr (True, msg, security_lookups env)"
    and ok: "verdict_ok env (True, msg, security_lookups env)"
    by simp_all
  from ok show ?thesis
    by (simp add: keyring_udf_func_init_def c v verdict_ok_def)
qed

lemma udf_init_eq:
  "returned r \<Longrightarrow>
   keyring_udf_func_init env ini args (requested_validation f)
     (case f of Keyring_key_fetch \<Rightarrow> Some MAX_KEYRING_UDF_KEY_TEXT_LENGTH
        | Keyring_key_type_fetch \<Rightarrow> Some KEYRING_UDF_KEY_TYPE_LENGTH
        | Keyring_key_length_fetch \<Rightarrow> None | _ \<Rightarrow> Some 1)
     (case f of Keyring_key_fetch \<Rightarrow> MAX_KEYRING_UDF_KEY_TEXT_LENGTH
        | Keyring_key_type_fetch \<Rightarrow> KEYRING_UDF_KEY_TYPE_LENGTH | _ \<Rightarrow> 0) = Inr r \<Longrightarrow>
   udf_init f env ini args = Inr r"
  by (cases f)
    (simp_all add: keyring_key_store_init_def keyring_key_fetch_init_def
      keyring_key_type_fetch_init_def keyring_key_length_fetch_init_def
      keyring_key_remove_init_def keyring_key_generate_init_def)

text \<open>
  Claim C9, as the code has it. Whenever the plugin is not initialized, the user lacks the
  EXECUTE privilege, the number of arguments is not the number of flags requested, a validated
  argument is null or of the wrong type, or the validated key length exceeds 16384, each of
  the six init functions returns true and the key store is never reached: the only service
  calls of such a call are the lookups of \<^verbatim>\<open>validate\<close> in the security context (none when
  the plugin is not initialized, \<^verbatim>\<open>thd_get_security_context\<close> alone when that call fails,
  else both lookups). The message buffer then holds one of the diagnostics of
  \<^verbatim>\<open>validate\<close>, except in one case: the plugin is initialized and the lookup of the
  privilege in the security context itself fails; \<^verbatim>\<open>validate\<close> then returns true before
  it writes any message.
\<close>

theorem init_rejects:
  assumes "must_be_rejected f env args"
  shows "\<exists>r. udf_init f env ini args = Inr r
     \<and> returned r
     \<and> \<not> list_ex key_store_call (calls r)
     \<and> calls r =
          (if \<not> is_keyring_udf_initialized env then []
           else if thd_get_security_context_fails env then [Thd_get_security_context]
           else [Thd_get_security_context, Security_context_get_option ''privilege_execute''])
     \<and> (message r = None \<longleftrightarrow>
          is_keyring_udf_initialized env \<and> has_current_user_execute_privilege env = None)
     \<and> (\<forall>m. message r = Some m \<longrightarrow> m \<in> set diagnostics)"
proof -
  let ?max_len = "case f of Keyring_key_fetch \<Rightarrow> Some MAX_KEYRING_UDF_KEY_TEXT_LENGTH
        | Keyring_key_type_fetch \<Rightarrow> Some KEYRING_UDF_KEY_TYPE_LENGTH
        | Keyring_key_length_fetch \<Rightarrow> None | _ \<Rightarrow> Some 1"
  let ?sz = "case f of Keyring_key_fetch \<Rightarrow> MAX_KEYRING_UDF_KEY_TEXT_LENGTH
        | Keyring_key_type_fetch \<Rightarrow> KEYRING_UDF_KEY_TYPE_LENGTH | _ \<Rightarrow> 0"
  from func_init_rejects [OF assms, where ini = ini and max_len = ?max_len and sz = ?sz]
  obtain r where
    run: "keyring_udf_func_init env ini args (requested_validation f) ?max_len ?sz = Inr r"
    and ret: "returned r"
    and cl: "calls r = security_lookups env"
    and msg: "message r = None \<longleftrightarrow>
          is_keyring_udf_initialized env \<and> has_current_user_execute_privilege env = None"
    and diag: "\<forall>m. message r = Some m \<longrightarrow> m \<in> set diagnostics"
    by (elim exE conjE) (rule that; assumption)
  from udf_init_eq [OF ret run] have "udf_init f env ini args = Inr r" .
  moreover from cl have "\<not> list_ex key_store_call (calls r)"
    by (simp add: no_key_store_in_lookups)
  moreover from cl have "calls r =
          (if \<not> is_keyring_udf_initialized env then []
           else if thd_get_security_context_fails env then [Thd_get_security_context]
           else [Thd_get_security_context, Security_context_get_option ''privilege_execute''])"
    by (simp add: security_lookups_def)
  ultimately show ?thesis using ret msg diag
    by (intro exI [of _ r] conjI) simp_all
qed

theorem init_rejects_witness:
  "must_be_rejected Keyring_key_generate
     \<lparr>is_keyring_udf_initialized = True, thd_get_security_context_fails = False,
      privilege_execute = Some True, allocation_fails = False, result_set_fails = False\<rparr>
     [\<lparr>arg_type = STRING_RESULT, arg_ptr = Some 0\<rparr>,
      \<lparr>arg_type = STRING_RESULT, arg_ptr = Some 0\<rparr>,
      \<lparr>arg_type = INT_RESULT, arg_ptr = Some 16385\<rparr>]
   \<and> (\<exists>r. udf_init Keyring_key_generate
     \<lparr>is_keyring_udf_initialized = True, thd_get_security_context_fails = False,
      privilege_execute = Some True, allocation_fails = False, result_set_fails = False\<rparr>
     \<lparr>maybe_null = False, max_length = 0, ptr = None\<rparr>
     [\<lparr>arg_type = STRING_RESULT, arg_ptr = Some 0\<rparr>,
      \<lparr>arg_type = STRING_RESULT, arg_ptr = Some 0\<rparr>,
      \<lparr>arg_type = INT_RESULT, arg_ptr = Some 16385\<rparr>] = Inr r
     \<and> returned r \<and> \<not> list_ex key_store_call (calls r)
     \<and> calls r = [Thd_get_security_context, Security_context_get_option ''privilege_execute'']
     \<and> message r \<noteq> None)"
  (is "must_be_rejected ?f ?env ?args \<and> (\<exists>r. udf_init ?f ?env ?ini ?args = Inr r \<and> _)")
proof -
  have rej: "must_be_rejected ?f ?env ?args"
    by (simp add: must_be_rejected_def key_length_too_long_def flag_defs)
  have priv: "has_current_user_execute_privilege ?env = Some True"
    by (simp add: has_current_user_execute_privilege_def)
  from init_rejects [OF rej, of ?ini] priv rej show ?thesis
    by auto
qed

text \<open>
  Claim C9 as stated fails on the message. \<^verbatim>\<open>keyring_key_fetch_init\<close> is called with no
  argument (one is expected) while the plugin is initialized and
  \<^verbatim>\<open>thd_get_security_context\<close> fails: the call returns true, and nothing has been written
  to the message buffer.
\<close>

theorem init_without_message_counterexample:
  "must_be_rejected Keyring_key_fetch
     \<lparr>is_keyring_udf_initialized = True, thd_get_security_context_fails = True,
      privilege_execute = None, allocation_fails = False, result_set_fails = False\<rparr> []
   \<and> udf_init Keyring_key_fetch
     \<lparr>is_keyring_udf_initialized = True, thd_get_security_context_fails = True,
      privilege_execute = None, allocation_fails = False, result_set_fails = False\<rparr>
     \<lparr>maybe_null = False, max_length = 0, ptr = None\<rparr> []
     = Inr \<lparr>returned = True, message = None,
            initid = \<lparr>maybe_null = False, max_length = 0, ptr = None\<rparr>,
            calls = [Thd_get_security_context]\<rparr>"
proof -
  have "must_be_rejected Keyring_key_fetch
     \<lparr>is_keyring_udf_initialized = True, thd_get_security_context_fails = True,
      privilege_execute = None, allocation_fails = False, result_set_fails = False\<rparr> []"
    using popcount_requested [of Keyring_key_fetch] by (simp add: must_be_rejected_def)
  moreover have "udf_init Keyring_key_fetch
     \<lparr>is_keyring_udf_initialized = True, thd_get_security_context_fails = True,
      privilege_execute = None, allocation_fails = False, result_set_fails = False\<rparr>
     \<lparr>maybe_null = False, max_length = 0, ptr = None\<rparr> []
     = Inr \<lparr>returned = True, message = None,
            initid = \<lparr>maybe_null = False, max_length = 0, ptr = None\<rparr>,
            calls = [Thd_get_security_context]\<rparr>"
    by (simp add: keyring_key_fetch_init_def keyring_udf_func_init_def
        get_args_count_from_validation_request_def count_bits_loop.simps flag_defs
        validate_def)
  ultimately show ?thesis by simp
qed

subsection \<open>Init calls that succeed\<close>

text \<open>
  The conditions are also the only reasons for which validation fails: a call that meets none
  of them, by a user whose privilege could be read, passes \<^verbatim>\<open>validate\<close>, and the init
  function returns false unless the allocation or \<^verbatim>\<open>result_set\<close> fails.
\<close>

lemma key_id_only_accepts:
  assumes "length args = 1"
    and "\<not> invalid_validated_argument VALIDATE_KEY_ID args"
  shows "validate_key_id args VALIDATE_KEY_ID = Inr (False, None)"
proof -
  from assms(1) obtain a where args: "args = [a]" using list1 by auto
  from assms(2) show ?thesis unfolding args
    by (auto simp: stage_defs condition_defs flag_defs)
qed

lemma store_accepts:
  assumes "length args = 3"
    and "\<not> invalid_validated_argument (VALIDATE_KEY_ID OR VALIDATE_KEY_TYPE OR VALIDATE_KEY) args"
  shows "validate_key_id args (VALIDATE_KEY_ID OR VALIDATE_KEY_TYPE OR VALIDATE_KEY)
     = Inr (False, None)"
proof -
  from assms(1) obtain a b c where args: "args = [a, b, c]" using list3 by blast
  from assms(2) show ?thesis unfolding args
    by (auto simp: stage_defs condition_defs flag_defs)
qed

lemma generate_accepts:
  assumes "length args = 3"
    and "\<not> invalid_validated_argument (VALIDATE_KEY_ID OR VALIDATE_KEY_TYPE OR VALIDATE_KEY_LENGTH) args"
    and "\<not> key_length_too_long (VALIDATE_KEY_ID OR VALIDATE_KEY_TYPE OR VALIDATE_KEY_LENGTH) args"
  shows "validate_key_id args (VALIDATE_KEY_ID OR VALIDATE_KEY_TYPE OR VALIDATE_KEY_LENGTH)
     = Inr (False, None)"
proof -
  from assms(1) obtain a b c where args: "args = [a, b, c]" using list3 by blast
  from assms(2,3) show ?thesis unfolding args
    by (auto simp: stage_defs condition_defs flag_defs
        MAX_KEYRING_UDF_KEY_TEXT_LENGTH_def MAX_KEYRING_UDF_KEY_LENGTH_def
        split: option.splits)
qed

lemma arg_checks_accept:
  assumes "length args = popcount (requested_validation f)"
    and "\<not> invalid_validated_argument (requested_validation f) args"
    and "\<not> key_length_too_long (requested_validation f) args"
  shows "validate_key_id args (requested_validation f) = Inr (False, None)"
proof -
  from assms(1) have len:
    "length args = (case f of Keyring_key_store \<Rightarrow> 3 | Keyring_key_generate \<Rightarrow> 3 | _ \<Rightarrow> 1)"
    by (simp add: popcount_requested)
  with assms(2,3) show ?thesis
    by (cases f) (simp_all add: key_id_only_accepts store_accepts generate_accepts)
qed

lemma valid_call_passes_validate:
  assumes "\<not> must_be_rejected f env args"
    and "has_current_user_execute_privilege env = Some True"
    and "unat expected_arg_count = popcount (requested_validation f)"
  shows "validate env args expected_arg_count (requested_validation f)
     = Inr (False, None, security_lookups env)"
  using assms arg_checks_accept [of args f]
  by (simp add: must_be_rejected_def validate_def security_lookups_def
      has_current_user_execute_privilege_def split: if_splits)

lemma func_init_accepts:
  assumes ok: "\<not> must_be_rejected f env args"
    and priv: "has_current_user_execute_privilege env = Some True"
    and alloc: "\<not> allocation_fails env"
  shows "\<exists>r. keyring_udf_func_init env ini args (requested_validation f) max_len sz = Inr r
     \<and> \<not> returned r \<and> message r = None \<and> maybe_null (initid r)
     \<and> calls r = security_lookups env @ map Argument_set [0 ..< length args]"
proof -
  obtain c where c: "get_args_count_from_validation_request (requested_validation f) = Some c"
    and cnt: "unat c = popcount (requested_validation f)"
    using args_count_of_udf [of f] popcount_requested [of f] by (cases f) auto
  note v = valid_call_passes_validate [OF ok priv cnt]
  from ok cnt have len: "unat c = length args" by (simp add: must_be_rejected_def)
  show ?thesis using alloc
    by (cases max_len) (simp_all add: keyring_udf_func_init_def c v Let_def len)
qed

lemma valid_call_accepted:
  assumes ok: "\<not> must_be_rejected f env args"
    and priv: "has_current_user_execute_privilege env = Some True"
    and alloc: "\<not> allocation_fails env" and rs: "\<not> result_set_fails env"
  shows "\<exists>r. udf_init f env ini args = Inr r \<and> \<not> returned r \<and> message r = None
           \<and> maybe_null (initid r)"
proof (cases f)
  case Keyring_key_store
  with func_init_accepts [OF ok priv alloc, of ini "Some 1" 0] show ?thesis
    by (auto simp: keyring_key_store_init_def)
next
  case Keyring_key_fetch
  with func_init_accepts [OF ok priv alloc, of ini "Some MAX_KEYRING_UDF_KEY_TEXT_LENGTH"
      MAX_KEYRING_UDF_KEY_TEXT_LENGTH] show ?thesis
    by (auto simp: keyring_key_fetch_init_def)
next
  case Keyring_key_type_fetch
  with func_init_accepts [OF ok priv alloc, of ini "Some KEYRING_UDF_KEY_TYPE_LENGTH"
      KEYRING_UDF_KEY_TYPE_LENGTH] rs show ?thesis
    by (auto simp: keyring_key_type_fetch_init_def)
next
  case Keyring_key_length_fetch
  with func_init_accepts [OF ok priv alloc, of ini None 0] show ?thesis
    by (auto simp: keyring_key_length_fetch_init_def)
next
  case Keyring_key_remove
  with func_init_accepts [OF ok priv alloc, of ini "Some 1" 0] show ?thesis
    by (auto simp: keyring_key_remove_init_def)
next
  case Keyring_key_generate
  with func_init_accepts [OF ok priv alloc, of ini "Some 1" 0] show ?thesis
    by (auto simp: keyring_key_generate_init_def)
qed

section \<open>Properties of srv0srv.h\<close>

subsection \<open>The activity count\<close>

lemma activity_count_after_five:
  "activity_count (srv_inc_activity_count b5 (srv_inc_activity_count b4
     (srv_inc_activity_count b3 (srv_inc_activity_count b2 (srv_inc_activity_count b1 sys)))))
   = activity_count sys + 5"
  by (simp add: srv_inc_activity_count_def)

text \<open>
  Claim C4. Let \<open>c0\<close> be a snapshot of the activity counter, and let
  \<^verbatim>\<open>srv_inc_activity_count\<close> be called exactly five times after it (with any tag). Then
  \<^verbatim>\<open>srv_check_activity(c0)\<close> returns true and \<^verbatim>\<open>srv_check_activity(c0 + 5)\<close> returns
  false, whatever the absolute value of the counter, also when it wraps around. In general the
  answer of \<^verbatim>\<open>srv_check_activity(old)\<close> is a function of the difference between the
  counter and \<open>old\<close> only: it is true exactly when the difference is not zero.
\<close>

theorem activity_checked_by_delta:
  "srv_check_activity
      (srv_inc_activity_count b5 (srv_inc_activity_count b4 (srv_inc_activity_count b3
        (srv_inc_activity_count b2 (srv_inc_activity_count b1 sys)))))
      (srv_get_activity_count sys) ULINT_UNDEFINED
   \<and> \<not> srv_check_activity
      (srv_inc_activity_count b5 (srv_inc_activity_count b4 (srv_inc_activity_count b3
        (srv_inc_activity_count b2 (srv_inc_activity_count b1 sys)))))
      (srv_get_activity_count sys + 5) ULINT_UNDEFINED
   \<and> srv_check_activity sys' old ULINT_UNDEFINED = (srv_get_activity_count sys' - old \<noteq> 0)"
proof -
  let ?sys5 = "srv_inc_activity_count b5 (srv_inc_activity_count b4 (srv_inc_activity_count b3
        (srv_inc_activity_count b2 (srv_inc_activity_count b1 sys))))"
  have after: "activity_count ?sys5 = srv_get_activity_count sys + 5"
    by (simp add: activity_count_after_five srv_get_activity_count_def)
  have moved: "srv_get_activity_count sys + 5 \<noteq> srv_get_activity_count sys"
    by simp
  have "srv_check_activity ?sys5 (srv_get_activity_count sys) ULINT_UNDEFINED"
    using moved by (simp add: srv_check_activity_def after)
  moreover have "\<not> srv_check_activity ?sys5 (srv_get_activity_count sys + 5) ULINT_UNDEFINED"
    by (simp add: srv_check_activity_def after)
  moreover have "srv_check_activity sys' old ULINT_UNDEFINED
      = (srv_get_activity_count sys' - old \<noteq> 0)"
    by (simp add: srv_check_activity_def srv_get_activity_count_def)
  ultimately show ?thesis by simp
qed

subsection \<open>Releasing suspended threads\<close>

lemma not_waiting_woken: "\<not> waiting t (slot\<lparr>suspended := False, event := True\<rparr>)"
  by (simp add: waiting_def)

lemma release_scan_props:
  "release_scan t n slots = (count, slots') \<Longrightarrow>
     count = min n (length (filter (waiting t) slots))
     \<and> list_all2 (woken t) slots slots'
     \<and> length (filter (waiting t) slots') = length (filter (waiting t) slots) - n"
proof (induction slots arbitrary: n count slots')
  case Nil
  then show ?case by simp
next
  case (Cons slot slots)
  show ?case
  proof (cases "0 < n \<and> waiting t slot")
    case True
    obtain c r where rest: "release_scan t (n - 1) slots = (c, r)"
      by (cases "release_scan t (n - 1) slots")
    from Cons.IH [OF rest] Cons.prems True rest show ?thesis
      by (auto simp: waiting_def woken_def)
  next
    case False
    obtain c r where rest: "release_scan t n slots = (c, r)"
      by (cases "release_scan t n slots")
    from Cons.IH [OF rest] Cons.prems False rest show ?thesis
      by (auto simp: waiting_def woken_def)
  qed
qed

lemma release_fewer_than_asked:
  "srv_release_threads SRV_WORKER 3 two_slots =
     (1, two_slots\<lparr>sys_threads :=
        [\<lparr>type = SRV_WORKER, in_use = True, suspended = False, suspend_time = 0,
          reservation_no = 0, wait_timeout = 0, event = True, thr = None\<rparr>,
         \<lparr>type = SRV_PURGE, in_use = True, suspended = True, suspend_time = 0,
          reservation_no = 0, wait_timeout = 0, event = False, thr = None\<rparr>]\<rparr>)"
  by (simp add: srv_release_threads_def two_slots_def)

text \<open>
  Claim C6. For every thread type and every \<open>n\<close>, \<^verbatim>\<open>srv_release_threads(type, n)\<close> returns
  the number of threads it has woken. That number is at most \<open>n\<close>: it is the smaller of \<open>n\<close>
  and the number of slots that hold a suspended thread of the type at the call. Every slot is
  either left as it was or was such a slot and has been woken, and the number of suspended
  threads of the type goes down by the number returned; the counters of the server are not
  touched. The number returned can be strictly less than \<open>n\<close>: in a table with one suspended
  worker thread and one suspended purge thread, a request to release 3 worker threads wakes
  the worker only and returns 1.
\<close>

theorem srv_release_threads_best_effort:
  "fst (srv_release_threads t n sys) \<le> n
   \<and> unat (fst (srv_release_threads t n sys))
       = min (unat n) (length (filter (waiting t) (sys_threads sys)))
   \<and> list_all2 (woken t) (sys_threads sys) (sys_threads (snd (srv_release_threads t n sys)))
   \<and> length (filter (waiting t) (sys_threads (snd (srv_release_threads t n sys))))
       = length (filter (waiting t) (sys_threads sys)) - unat (fst (srv_release_threads t n sys))
   \<and> activity_count (snd (srv_release_threads t n sys)) = activity_count sys
   \<and> ibuf_merge_activity_count (snd (srv_release_threads t n sys))
       = ibuf_merge_activity_count sys
   \<and> fst (srv_release_threads SRV_WORKER 3 two_slots) = 1"
proof -
  obtain count slots' where scan: "release_scan t (unat n) (sys_threads sys) = (count, slots')"
    by (cases "release_scan t (unat n) (sys_threads sys)")
  from release_scan_props [OF scan]
  have count: "count = min (unat n) (length (filter (waiting t) (sys_threads sys)))"
    and slots: "list_all2 (woken t) (sys_threads sys) slots'"
    and left: "length (filter (waiting t) slots')
        = length (filter (waiting t) (sys_threads sys)) - unat n"
    by simp_all
  from count have le: "count \<le> unat n" by simp
  then have un: "unat (of_nat count :: 64 word) = count" by (rule le_unat_uoi)
  have res: "srv_release_threads t n sys = (of_nat count, sys\<lparr>sys_threads := slots'\<rparr>)"
    by (simp add: srv_release_threads_def scan)
  have "fst (srv_release_threads t n sys) \<le> n"
    using le un by (simp add: res word_le_nat_alt)
  moreover have "unat (fst (srv_release_threads t n sys))
       = min (unat n) (length (filter (waiting t) (sys_threads sys)))"
    using count un by (simp add: res)
  moreover have "list_all2 (woken t) (sys_threads sys)
       (sys_threads (snd (srv_release_threads t n sys)))"
    using slots by (simp add: res)
  moreover have "length (filter (waiting t) (sys_threads (snd (srv_release_threads t n sys))))
       = length (filter (waiting t) (sys_threads sys)) - unat (fst (srv_release_threads t n sys))"
    using left count un by (simp add: res)
  moreover have "activity_count (snd (srv_release_threads t n sys)) = activity_count sys"
    "ibuf_merge_activity_count (snd (srv_release_threads t n sys))
       = ibuf_merge_activity_count sys"
    by (simp_all add: res)
  moreover have "fst (srv_release_threads SRV_WORKER 3 two_slots) = 1"
    by (simp add: release_fewer_than_asked)
  ultimately show ?thesis by simp
qed

end
